theory Spec2Isabelle
  imports Complex_Main
begin

section \<open>PointerEffect: filtering pointer samples into a polyline with normals\<close>

text \<open>
  The development embeds \<^verbatim>\<open>src/PointerEffect.ts\<close>: the \<^verbatim>\<open>hammer.input\<close> handler
  installed by \<^verbatim>\<open>init\<close>, \<^verbatim>\<open>_onSessionStart\<close>, \<^verbatim>\<open>_onSessionUpdate\<close> and
  \<^verbatim>\<open>_onSessionEnd\<close>. JavaScript numbers are modelled as real numbers, an
  idealisation of IEEE doubles: there is no rounding and no NaN in the model. A thrown
  \<^verbatim>\<open>TypeError\<close> (reading a property of \<^verbatim>\<open>null\<close> or \<^verbatim>\<open>undefined\<close>) is the value
  \<open>Inl TypeError\<close>. Mutable objects are held by value in the state record: every
  filtered point and every normal vector is created fresh by the update that stores it, so
  no two places of the state alias.
\<close>

subsection \<open>Vectors\<close>

text \<open>
  \<^verbatim>\<open>BABYLON.Vector2\<close> belongs to the rendering library, which is not part of the
  sources: a pair of numbers, here real numbers.
\<close>

datatype Vector2 = Vector2 (vx: real) (vy: real)

text \<open>
  Modelled from the spec: the length of a vector (\<^verbatim>\<open>BABYLON.Vector2.length\<close>, library
  code that is not part of the sources), the Euclidean magnitude the spec speaks of.
\<close>

definition vlength :: "Vector2 \<Rightarrow> real" where
  "vlength v = sqrt (vx v * vx v + vy v * vy v)"

text \<open>
  Modelled from the spec: \<^verbatim>\<open>BABYLON.Vector2.normalize\<close>, library code that is not part
  of the sources. A vector of length zero is returned as it is; any other vector is scaled
  by the inverse of its length. Over the real numbers the test for a zero length changes
  nothing, since a division by zero is zero in HOL: what doubles give when the length is
  zero (a zero vector, or \<^verbatim>\<open>NaN\<close> components from a division) is outside this model,
  and no property below is a statement about that case.
\<close>

definition normalize_vec :: "Vector2 \<Rightarrow> Vector2" where
  "normalize_vec v =
     (let len = vlength v
      in if len = 0 then v
         else (let num = 1 / len in Vector2 (vx v * num) (vy v * num)))"

subsection \<open>Input events and the pointer session\<close>

record HammerInput =
  isFirst :: bool
  isFinal :: bool
  center :: Vector2

text \<open>
  Modelled from the spec: the class \<^verbatim>\<open>PointerSession\<close> is imported from
  \<^verbatim>\<open>@/PointerSession\<close>, which is not part of the sources. A session holds the ordered
  samples, the cumulative travelled distance and the ended flag.
\<close>

record PointerSession =
  inputData :: "HammerInput list"
  traveledDistance :: real
  isEnded :: bool

text \<open>
  Modelled from the spec: the constructor of \<^verbatim>\<open>PointerSession\<close>, not part of the
  sources. A new session has no sample, has travelled no distance and is not ended.
\<close>

definition new_PointerSession :: PointerSession where
  "new_PointerSession = \<lparr>inputData = [], traveledDistance = 0, isEnded = False\<rparr>"

text \<open>
  Modelled from the spec: the displacement between two samples, computed inside
  \<^verbatim>\<open>PointerSession\<close>, is the Euclidean distance between their centres.
\<close>

definition distance :: "Vector2 \<Rightarrow> Vector2 \<Rightarrow> real" where
  "distance a b = vlength (Vector2 (vx b - vx a) (vy b - vy a))"

text \<open>
  Modelled from the spec: \<^verbatim>\<open>PointerSession.addInputPoint\<close>, not part of the sources.
  Adding a sample appends it and adds to the travelled distance the distance between its
  centre and the centre of the previous sample (zero for the first sample); the session
  is ended once the final sample has been appended, and adding to an ended session
  changes nothing.
\<close>

definition addInputPoint :: "PointerSession \<Rightarrow> HammerInput \<Rightarrow> PointerSession" where
  "addInputPoint s e =
     (if isEnded s then s
      else s\<lparr>inputData := inputData s @ [e],
             traveledDistance :=
               traveledDistance s +
                 (case inputData s of
                    [] \<Rightarrow> 0
                  | _ # _ \<Rightarrow> distance (center (last (inputData s))) (center e)),
             isEnded := isFinal e\<rparr>)"

subsection \<open>The effect controller\<close>

definition MIN_SWIPE_THRESHOLD :: real where
  "MIN_SWIPE_THRESHOLD = 10"

definition MIN_SWIPE_SEG :: real where
  "MIN_SWIPE_SEG = 50"

text \<open>
  The object literal built for every sample. The fields \<^verbatim>\<open>x\<close>, \<^verbatim>\<open>y\<close> and
  \<^verbatim>\<open>traveledDistance\<close> carry the prefix \<open>fp_\<close>, since a field name is a constant.
\<close>

record FilteredPoint =
  fp_x :: real
  fp_y :: real
  input :: HammerInput
  fp_traveledDistance :: real
  distanceToLast :: real
  isStart :: bool
  isEnd :: bool
  normal :: Vector2

text \<open>
  The runtime data of the class. The gesture manager, the canvases, the scene and the
  line mesh play no part in the handler and are left out.
\<close>

record PointerEffect =
  currentSession :: "PointerSession option"
  isClick :: bool
  filteredPoints :: "FilteredPoint list"
  meshPoints :: "(real \<times> real \<times> real) list"
  debugIsDirty :: bool

definition initial :: PointerEffect where
  "initial = \<lparr>currentSession = None, isClick = False, filteredPoints = [],
               meshPoints = [], debugIsDirty = False\<rparr>"

datatype error = TypeError

text \<open>
  Reading \<^verbatim>\<open>xs[i]\<close>: an index outside the array, a negative one included, gives
  \<^verbatim>\<open>undefined\<close>, which is \<open>None\<close> here.
\<close>

definition js_index :: "'a list \<Rightarrow> int \<Rightarrow> 'a option" where
  "js_index xs i = (if 0 \<le> i \<and> i < int (length xs) then Some (xs ! nat i) else None)"

definition onSessionStart :: "PointerSession \<Rightarrow> PointerEffect \<Rightarrow> PointerEffect" where
  "onSessionStart session st = st\<lparr>isClick := True, filteredPoints := [], meshPoints := []\<rparr>"

definition onSessionEnd :: "PointerSession \<Rightarrow> PointerEffect \<Rightarrow> PointerEffect" where
  "onSessionEnd session st = st"

text \<open>Lines 180 to 185: the click flag is cleared once the distance exceeds the threshold.\<close>

definition classify :: "PointerSession \<Rightarrow> PointerEffect \<Rightarrow> PointerEffect" where
  "classify cs st =
     (if traveledDistance cs > MIN_SWIPE_THRESHOLD then st\<lparr>isClick := False\<rparr> else st)"

text \<open>Lines 194 to 203: the candidate point of the newest sample.\<close>

definition candidate :: "PointerSession \<Rightarrow> HammerInput \<Rightarrow> FilteredPoint" where
  "candidate cs currentInput =
     \<lparr>fp_x = vx (center currentInput), fp_y = vy (center currentInput),
      input = currentInput, fp_traveledDistance = traveledDistance cs,
      distanceToLast = 0, isStart = False, isEnd = True, normal = Vector2 0 0\<rparr>"

text \<open>
  Lines 204 to 238 on the list of filtered points. On an empty list the candidate becomes
  the start point. Otherwise \<^verbatim>\<open>lastDeterminedPoint\<close> stays \<^verbatim>\<open>null\<close> when the last
  point has no \<^verbatim>\<open>isEnd\<close>, and is \<^verbatim>\<open>undefined\<close> when the index \<^verbatim>\<open>length - 2\<close> is out
  of range; reading its \<^verbatim>\<open>traveledDistance\<close> then throws.
\<close>

definition filterPoints :: "FilteredPoint \<Rightarrow> FilteredPoint list \<Rightarrow> error + FilteredPoint list" where
  "filterPoints filteredPoint fps =
     (if length fps = 0 then Inr (fps @ [filteredPoint\<lparr>isStart := True\<rparr>])
      else
        (let lastFilteredPoint = last fps;
             lastDeterminedPoint =
               (if isEnd lastFilteredPoint then
                  (if isStart lastFilteredPoint then Some lastFilteredPoint
                   else js_index fps (int (length fps) - 2))
                else None)
         in case lastDeterminedPoint of
              None \<Rightarrow> Inl TypeError
            | Some ldp \<Rightarrow>
                (let distanceDelta =
                       fp_traveledDistance filteredPoint - fp_traveledDistance ldp
                 in if distanceDelta > MIN_SWIPE_SEG \<or> isStart lastFilteredPoint
                    then Inr (butlast fps @ [lastFilteredPoint\<lparr>isEnd := False\<rparr>]
                                @ [filteredPoint])
                    else Inr (fps[length fps - 1 := filteredPoint]))))"

text \<open>Lines 246 to 269: the normal of the last point, from the last two points.\<close>

definition makeNormals :: "bool \<Rightarrow> FilteredPoint list \<Rightarrow> FilteredPoint list" where
  "makeNormals click fps =
     (if \<not> click then
        (case (js_index fps (int (length fps) - 1), js_index fps (int (length fps) - 2)) of
           (Some currentFP, Some lastFP) \<Rightarrow>
             (let currentV =
                    normalize_vec (Vector2 (fp_x currentFP - fp_x lastFP)
                                       (fp_y currentFP - fp_y lastFP))
              in fps[length fps - 1 :=
                       currentFP\<lparr>normal :=
                         normalize_vec (Vector2 (- vy currentV) (vx currentV))\<rparr>])
         | _ \<Rightarrow> fps)
      else fps)"

text \<open>
  \<^verbatim>\<open>_onSessionUpdate\<close>. Its parameter is not read: the method works on
  \<^verbatim>\<open>this._currentSession\<close>. Reading \<^verbatim>\<open>center\<close> of the newest sample throws when the
  session has no sample.
\<close>

definition onSessionUpdate :: "PointerSession \<Rightarrow> PointerEffect \<Rightarrow> error + PointerEffect" where
  "onSessionUpdate session st =
     (case currentSession st of
        None \<Rightarrow> Inr st
      | Some cs \<Rightarrow>
          (let st1 = classify cs st;
               inputDataList = inputData cs
           in case js_index inputDataList (int (length inputDataList) - 1) of
                None \<Rightarrow> Inl TypeError
              | Some currentInput \<Rightarrow>
                  (case filterPoints (candidate cs currentInput) (filteredPoints st1) of
                     Inl err \<Rightarrow> Inl err
                   | Inr fps \<Rightarrow>
                       Inr (st1\<lparr>filteredPoints := makeNormals (isClick st1) fps\<rparr>))))"

text \<open>
  The \<^verbatim>\<open>hammer.input\<close> handler of \<^verbatim>\<open>init\<close>, lines 57 to 75. An exception leaves the
  handler at once; the model then returns the error and no state.
\<close>

definition handle_input :: "PointerEffect \<Rightarrow> HammerInput \<Rightarrow> error + PointerEffect" where
  "handle_input st e =
     (let s0 = (case currentSession st of
                  None \<Rightarrow> new_PointerSession
                | Some cs \<Rightarrow> if isFirst e then new_PointerSession else cs);
          s1 = addInputPoint s0 e;
          st1 = st\<lparr>currentSession := Some s1\<rparr>;
          st2 = (if isFirst e then onSessionStart s1 st1 else st1)
      in case onSessionUpdate s1 st2 of
           Inl err \<Rightarrow> Inl err
         | Inr st3 \<Rightarrow>
             Inr ((if isFinal e then onSessionEnd s1 st3 else st3)\<lparr>debugIsDirty := True\<rparr>))"

text \<open>The handler on a sequence of events, stopping at the first exception.\<close>

fun handle_inputs :: "PointerEffect \<Rightarrow> HammerInput list \<Rightarrow> error + PointerEffect" where
  "handle_inputs st [] = Inr st"
| "handle_inputs st (e # es) =
     (case handle_input st e of Inl err \<Rightarrow> Inl err | Inr st' \<Rightarrow> handle_inputs st' es)"

subsection \<open>Well-formed point lists, the session invariant and sample runs\<close>

text \<open>
  The shape of the list of filtered points during a session: the first point is the only
  start point and the last point is the only end point.
\<close>

definition wf_points :: "FilteredPoint list \<Rightarrow> bool" where
  "wf_points ps \<longleftrightarrow>
     ps \<noteq> [] \<and> isStart (hd ps) \<and> list_all (\<lambda>p. \<not> isStart p) (tl ps) \<and>
     isEnd (last ps) \<and> list_all (\<lambda>p. \<not> isEnd p) (butlast ps)"

text \<open>
  What holds after every event of a session whose first point is \<open>a\<close>: the session has
  samples, the last filtered point sits on the newest sample, a distance above the
  threshold has cleared the click flag, and the first point is still \<open>a\<close> up to its
  \<^verbatim>\<open>isEnd\<close> flag.
\<close>

definition session_inv :: "FilteredPoint \<Rightarrow> PointerEffect \<Rightarrow> bool" where
  "session_inv a st \<longleftrightarrow>
     (case currentSession st of
        None \<Rightarrow> False
      | Some cs \<Rightarrow>
          inputData cs \<noteq> [] \<and>
          fp_x (last (filteredPoints st)) = vx (center (last (inputData cs))) \<and>
          fp_y (last (filteredPoints st)) = vy (center (last (inputData cs))) \<and>
          (10 < traveledDistance cs \<longrightarrow> \<not> isClick st)) \<and>
     wf_points (filteredPoints st) \<and>
     (hd (filteredPoints st))\<lparr>isEnd := True\<rparr> = a"

text \<open>Samples for concrete runs, and the position and flags of a filtered point.\<close>

definition sample :: "bool \<Rightarrow> bool \<Rightarrow> real \<Rightarrow> real \<Rightarrow> HammerInput" where
  "sample first final a b = \<lparr>isFirst = first, isFinal = final, center = Vector2 a b\<rparr>"

definition swipe_samples :: "HammerInput list" where
  "swipe_samples =
     [sample True False 0 0, sample False False 5 0, sample False False 60 0,
      sample False True 65 0]"

definition click_samples :: "HammerInput list" where
  "click_samples = [sample True False 0 0, sample False True 3 0]"

definition flags :: "FilteredPoint \<Rightarrow> real \<times> real \<times> bool \<times> bool" where
  "flags p = (fp_x p, fp_y p, isStart p, isEnd p)"

text \<open>
  Two states at the moment \<^verbatim>\<open>_onSessionUpdate\<close> is called, the newest sample already
  in the session. In the first the third sample (60,0) arrives after (0,0) and (5,0); in
  the second the pointer rests: (60,0) arrives a second time.
\<close>

definition locking_session :: PointerSession where
  "locking_session =
     \<lparr>inputData = [sample True False 0 0, sample False False 5 0, sample False False 60 0],
      traveledDistance = 60, isEnded = False\<rparr>"

definition locking_state :: PointerEffect where
  "locking_state =
     \<lparr>currentSession = Some locking_session, isClick = True,
      filteredPoints =
        [\<lparr>fp_x = 0, fp_y = 0, input = sample True False 0 0, fp_traveledDistance = 0,
          distanceToLast = 0, isStart = True, isEnd = False, normal = Vector2 0 0\<rparr>,
         \<lparr>fp_x = 5, fp_y = 0, input = sample False False 5 0, fp_traveledDistance = 5,
          distanceToLast = 0, isStart = False, isEnd = True, normal = Vector2 0 0\<rparr>],
      meshPoints = [], debugIsDirty = True\<rparr>"

definition resting_session :: PointerSession where
  "resting_session =
     \<lparr>inputData = [sample True False 0 0, sample False False 60 0, sample False False 60 0],
      traveledDistance = 60, isEnded = False\<rparr>"

definition resting_state :: PointerEffect where
  "resting_state =
     \<lparr>currentSession = Some resting_session, isClick = False,
      filteredPoints =
        [\<lparr>fp_x = 0, fp_y = 0, input = sample True False 0 0, fp_traveledDistance = 0,
          distanceToLast = 0, isStart = True, isEnd = False, normal = Vector2 0 0\<rparr>,
         \<lparr>fp_x = 60, fp_y = 0, input = sample False False 60 0, fp_traveledDistance = 60,
          distanceToLast = 0, isStart = False, isEnd = True, normal = Vector2 0 1\<rparr>],
      meshPoints = [], debugIsDirty = True\<rparr>"

section \<open>Properties\<close>

subsection \<open>Vectors\<close>

lemma vlength_x: "vlength (Vector2 a 0) = \<bar>a\<bar>"
  by (simp add: vlength_def)

lemma vlength_y: "vlength (Vector2 0 b) = \<bar>b\<bar>"
  by (simp add: vlength_def)

lemma vlength_Vector2: "vlength (Vector2 a b) = sqrt (a * a + b * b)"
  by (simp add: vlength_def)

lemma vlength_nonneg: "0 \<le> vlength v"
  by (simp add: vlength_def)

lemma vlength_zero_iff: "vlength v = 0 \<longleftrightarrow> v = Vector2 0 0"
proof -
  have "vx v * vx v + vy v * vy v = 0 \<longleftrightarrow> vx v = 0 \<and> vy v = 0"
    by (simp add: sum_squares_eq_zero_iff)
  then show ?thesis
    by (cases v) (simp add: vlength_def)
qed

lemma vlength_perp: "vlength (Vector2 (- vy v) (vx v)) = vlength v"
  by (simp add: vlength_def add.commute)

lemma vlength_normalize_vec:
  assumes "v \<noteq> Vector2 0 0"
  shows "vlength (normalize_vec v) = 1"
proof -
  let ?l = "vlength v"
  have pos: "0 < ?l"
    using assms vlength_nonneg [of v] vlength_zero_iff [of v] by linarith
  have sq: "?l * ?l = vx v * vx v + vy v * vy v"
    by (simp add: vlength_def)
  have nv: "normalize_vec v = Vector2 (vx v * (1 / ?l)) (vy v * (1 / ?l))"
    using pos by (simp add: normalize_vec_def Let_def)
  have "vx v * (1 / ?l) * (vx v * (1 / ?l)) + vy v * (1 / ?l) * (vy v * (1 / ?l))
        = (vx v * vx v + vy v * vy v) / (?l * ?l)"
    by (simp add: add_divide_distrib)
  also have "\<dots> = (?l * ?l) / (?l * ?l)"
    by (simp only: sq)
  also have "\<dots> = 1"
    using pos by simp
  finally show ?thesis
    by (simp only: nv vlength_Vector2 real_sqrt_one)
qed

lemma normalize_vec_unit: "vlength v = 1 \<Longrightarrow> normalize_vec v = v"
  by (cases v) (simp add: normalize_vec_def)

lemma unit_normal:
  assumes "d \<noteq> Vector2 0 0"
  shows "vlength (normalize_vec (Vector2 (- vy (normalize_vec d)) (vx (normalize_vec d)))) = 1"
proof -
  have "vlength (Vector2 (- vy (normalize_vec d)) (vx (normalize_vec d))) = 1"
    using vlength_normalize_vec [OF assms] by (simp add: vlength_perp)
  then show ?thesis
    by (simp add: normalize_vec_unit)
qed

subsection \<open>Array reads\<close>

lemma js_index_last: "xs \<noteq> [] \<Longrightarrow> js_index xs (int (length xs) - 1) = Some (last xs)"
  by (cases xs rule: rev_cases) (simp_all add: js_index_def nat_diff_distrib)

lemma js_index_before_last:
  "js_index (xs @ [x]) (int (length (xs @ [x])) - 2) = (if xs = [] then None else Some (last xs))"
  by (cases xs rule: rev_cases) (simp_all add: js_index_def nth_append)

subsection \<open>The phases of an update\<close>

lemma filterPoints_Nil: "filterPoints c [] = Inr [c\<lparr>isStart := True\<rparr>]"
  by (simp add: filterPoints_def)

lemma filterPoints_snoc:
  "filterPoints c (qs @ [t]) =
     (if \<not> isEnd t then Inl TypeError
      else if isStart t then Inr (qs @ [t\<lparr>isEnd := False\<rparr>, c])
      else if qs = [] then Inl TypeError
      else if fp_traveledDistance c - fp_traveledDistance (last qs) > 50
           then Inr (qs @ [t\<lparr>isEnd := False\<rparr>, c])
           else Inr (qs @ [c]))"
proof -
  have b: "js_index (qs @ [t]) (int (length (qs @ [t])) - 2) =
             (if qs = [] then None else Some (last qs))"
    by (rule js_index_before_last)
  have u: "(qs @ [t])[length (qs @ [t]) - 1 := c] = qs @ [c]"
    by simp
  have l: "length (qs @ [t]) = 0 \<longleftrightarrow> False"
    by simp
  show ?thesis
    unfolding filterPoints_def b u l by (simp add: Let_def MIN_SWIPE_SEG_def)
qed

lemma filterPoints_last:
  assumes "filterPoints c ps = Inr ps'"
  shows "ps' \<noteq> [] \<and> (last ps')\<lparr>isStart := b\<rparr> = c\<lparr>isStart := b\<rparr>"
proof (cases ps rule: rev_cases)
  case Nil
  with assms show ?thesis
    by (auto simp add: filterPoints_Nil)
next
  case (snoc qs t)
  with assms show ?thesis
    by (auto simp add: filterPoints_snoc split: if_splits)
qed

lemma filterPoints_butlast_normals:
  assumes "filterPoints c ps = Inr ps'"
  shows "map normal (butlast ps') = take (length ps' - 1) (map normal ps)"
proof (cases ps rule: rev_cases)
  case Nil
  with assms show ?thesis
    by (auto simp add: filterPoints_Nil)
next
  case (snoc qs t)
  with assms show ?thesis
    by (auto simp add: filterPoints_snoc butlast_append split: if_splits)
qed

lemma makeNormals_Nil: "makeNormals click [] = []"
  by (simp add: makeNormals_def js_index_def)

lemma makeNormals_single: "makeNormals click [p] = [p]"
  by (simp add: makeNormals_def js_index_def)

lemma makeNormals_click: "makeNormals True fps = fps"
  by (simp add: makeNormals_def)

lemma makeNormals_snoc2:
  "makeNormals False (qs @ [l, c]) =
     qs @ [l, c\<lparr>normal :=
                 normalize_vec
                   (Vector2 (- vy (normalize_vec (Vector2 (fp_x c - fp_x l) (fp_y c - fp_y l))))
                            (vx (normalize_vec (Vector2 (fp_x c - fp_x l) (fp_y c - fp_y l)))))\<rparr>]"
proof -
  have a: "js_index (qs @ [l, c]) (int (length (qs @ [l, c])) - 1) = Some c"
    using js_index_last [of "qs @ [l, c]"] by simp
  have b: "js_index (qs @ [l, c]) (int (length (qs @ [l, c])) - 2) = Some l"
    using js_index_before_last [of "qs @ [l]" c] by simp
  have c: "(qs @ [l, c])[length (qs @ [l, c]) - 1 := p] = qs @ [l, p]" for p
    by (simp add: list_update_append)
  show ?thesis
    unfolding makeNormals_def a b c by (simp add: Let_def)
qed

lemma makeNormals_shape:
  "fps \<noteq> [] \<Longrightarrow> \<exists>n. makeNormals click fps = butlast fps @ [(last fps)\<lparr>normal := n\<rparr>]"
proof (cases click)
  case True
  assume "fps \<noteq> []"
  with True show ?thesis
    by (intro exI [of _ "normal (last fps)"]) (simp add: makeNormals_click)
next
  case False
  assume ne: "fps \<noteq> []"
  then obtain qs c where fps: "fps = qs @ [c]"
    by (cases fps rule: rev_cases) auto
  show ?thesis
  proof (cases qs rule: rev_cases)
    case Nil
    with fps show ?thesis
      by (intro exI [of _ "normal c"]) (simp add: makeNormals_single)
  next
    case (snoc rs l)
    with fps False show ?thesis
      by (auto simp add: makeNormals_snoc2 butlast_append)
  qed
qed

lemma makeNormals_length: "length (makeNormals click ps) = length ps"
proof (cases "ps = []")
  case True
  then show ?thesis by (simp add: makeNormals_Nil)
next
  case False
  then obtain n where "makeNormals click ps = butlast ps @ [(last ps)\<lparr>normal := n\<rparr>]"
    using makeNormals_shape by blast
  with False show ?thesis by simp
qed

lemma makeNormals_butlast: "butlast (makeNormals click ps) = butlast ps"
proof (cases "ps = []")
  case True
  then show ?thesis by (simp add: makeNormals_Nil)
next
  case False
  then obtain n where "makeNormals click ps = butlast ps @ [(last ps)\<lparr>normal := n\<rparr>]"
    using makeNormals_shape by blast
  then show ?thesis by simp
qed

lemma makeNormals_hd: "2 \<le> length ps \<Longrightarrow> hd (makeNormals click ps) = hd ps"
proof -
  assume l: "2 \<le> length ps"
  then have ne: "ps \<noteq> []" by auto
  then obtain n where n: "makeNormals click ps = butlast ps @ [(last ps)\<lparr>normal := n\<rparr>]"
    using makeNormals_shape by blast
  from l have "butlast ps \<noteq> []"
    by (cases ps rule: rev_cases) auto
  then have "hd (butlast ps @ [(last ps)\<lparr>normal := n\<rparr>]) = hd ps"
    using ne by (cases ps) auto
  with n show ?thesis by simp
qed

lemma makeNormals_last_pos:
  "ps \<noteq> [] \<Longrightarrow>
     fp_x (last (makeNormals click ps)) = fp_x (last ps) \<and>
     fp_y (last (makeNormals click ps)) = fp_y (last ps)"
proof -
  assume ne: "ps \<noteq> []"
  then obtain n where n: "makeNormals click ps = butlast ps @ [(last ps)\<lparr>normal := n\<rparr>]"
    using makeNormals_shape by blast
  then show ?thesis by simp
qed

lemma makeNormals_last_upd:
  "ps \<noteq> [] \<Longrightarrow> (last (makeNormals click ps))\<lparr>normal := m\<rparr> = (last ps)\<lparr>normal := m\<rparr>"
proof -
  assume "ps \<noteq> []"
  then obtain n where "makeNormals click ps = butlast ps @ [(last ps)\<lparr>normal := n\<rparr>]"
    using makeNormals_shape by blast
  then show ?thesis by simp
qed

lemma makeNormals_normal_out:
  assumes "ps \<noteq> []"
  shows "normal (last (makeNormals click ps)) =
           (if \<not> click \<and> 2 \<le> length (makeNormals click ps)
            then normalize_vec
                   (Vector2
                     (- vy (normalize_vec
                              (Vector2 (fp_x (last (makeNormals click ps)) -
                                          fp_x (makeNormals click ps ! (length (makeNormals click ps) - 2)))
                                       (fp_y (last (makeNormals click ps)) -
                                          fp_y (makeNormals click ps ! (length (makeNormals click ps) - 2))))))
                     (vx (normalize_vec
                            (Vector2 (fp_x (last (makeNormals click ps)) -
                                        fp_x (makeNormals click ps ! (length (makeNormals click ps) - 2)))
                                     (fp_y (last (makeNormals click ps)) -
                                        fp_y (makeNormals click ps ! (length (makeNormals click ps) - 2)))))))
            else normal (last ps))"
proof (cases click)
  case True
  then show ?thesis by (simp add: makeNormals_click)
next
  case False
  from assms obtain qs c where ps: "ps = qs @ [c]"
    by (cases ps rule: rev_cases) auto
  show ?thesis
  proof (cases qs rule: rev_cases)
    case Nil
    with ps show ?thesis by (simp add: makeNormals_single)
  next
    case (snoc rs l)
    have "(rs @ [l, c']) ! length rs = l" for c'
      by (simp add: nth_append)
    with snoc ps False show ?thesis
      by (simp add: makeNormals_snoc2)
  qed
qed

subsection \<open>One update, one event\<close>

lemma addInputPoint_new:
  "addInputPoint new_PointerSession e =
     \<lparr>inputData = [e], traveledDistance = 0, isEnded = isFinal e\<rparr>"
  by (simp add: addInputPoint_def new_PointerSession_def)

lemma addInputPoint_inputData_nonempty:
  "inputData cs \<noteq> [] \<Longrightarrow> inputData (addInputPoint cs e) \<noteq> []"
  by (simp add: addInputPoint_def)

lemma onSessionUpdate_Some:
  assumes "currentSession st = Some cs" and "inputData cs \<noteq> []"
  shows "onSessionUpdate session st =
           (case filterPoints (candidate cs (last (inputData cs))) (filteredPoints st) of
              Inl err \<Rightarrow> Inl err
            | Inr fps \<Rightarrow>
                Inr (st\<lparr>isClick := isClick st \<and> \<not> 10 < traveledDistance cs,
                         filteredPoints :=
                           makeNormals (isClick st \<and> \<not> 10 < traveledDistance cs) fps\<rparr>))"
proof (cases "10 < traveledDistance cs")
  case True
  with assms show ?thesis
    by (simp add: onSessionUpdate_def classify_def MIN_SWIPE_THRESHOLD_def js_index_last
             split: sum.split)
next
  case False
  with assms show ?thesis
    by (simp add: onSessionUpdate_def classify_def MIN_SWIPE_THRESHOLD_def js_index_last
             split: sum.split)
qed

lemma onSessionUpdate_no_sample:
  "currentSession st = Some cs \<Longrightarrow> inputData cs = [] \<Longrightarrow>
     onSessionUpdate session st = Inl TypeError"
  by (simp add: onSessionUpdate_def js_index_def)

lemma onSessionUpdate_result:
  assumes "onSessionUpdate session st = Inr st'" and "currentSession st = Some cs"
  shows "inputData cs \<noteq> [] \<and>
         (\<exists>ps'. filterPoints (candidate cs (last (inputData cs))) (filteredPoints st) = Inr ps' \<and>
                st' = st\<lparr>isClick := isClick st \<and> \<not> 10 < traveledDistance cs,
                         filteredPoints :=
                           makeNormals (isClick st \<and> \<not> 10 < traveledDistance cs) ps'\<rparr>)"
proof -
  have ne: "inputData cs \<noteq> []"
    using assms onSessionUpdate_no_sample [of st cs session] by auto
  from assms show ?thesis
    unfolding onSessionUpdate_Some [OF assms(2) ne] using ne
    by (auto split: sum.splits)
qed

lemma onSessionUpdate_tail_normal:
  assumes "onSessionUpdate session st = Inr st'" and "currentSession st = Some cs"
  shows "normal (last (filteredPoints st')) =
           (if \<not> isClick st' \<and> 2 \<le> length (filteredPoints st')
            then normalize_vec
                   (Vector2
                     (- vy (normalize_vec
                              (Vector2 (fp_x (last (filteredPoints st')) -
                                          fp_x (filteredPoints st' ! (length (filteredPoints st') - 2)))
                                       (fp_y (last (filteredPoints st')) -
                                          fp_y (filteredPoints st' ! (length (filteredPoints st') - 2))))))
                     (vx (normalize_vec
                            (Vector2 (fp_x (last (filteredPoints st')) -
                                        fp_x (filteredPoints st' ! (length (filteredPoints st') - 2)))
                                     (fp_y (last (filteredPoints st')) -
                                        fp_y (filteredPoints st' ! (length (filteredPoints st') - 2)))))))
            else Vector2 0 0)"
proof -
  let ?c = "candidate cs (last (inputData cs))"
  let ?click = "isClick st \<and> \<not> 10 < traveledDistance cs"
  from assms obtain ps' where f: "filterPoints ?c (filteredPoints st) = Inr ps'"
    and st': "st' = st\<lparr>isClick := ?click, filteredPoints := makeNormals ?click ps'\<rparr>"
    using onSessionUpdate_result by blast
  from f have ne: "ps' \<noteq> []" and l: "(last ps')\<lparr>isStart := False\<rparr> = ?c\<lparr>isStart := False\<rparr>"
    using filterPoints_last by blast+
  have "normal ((last ps')\<lparr>isStart := False\<rparr>) = normal (?c\<lparr>isStart := False\<rparr>)"
    by (simp only: l)
  then have z: "normal (last ps') = Vector2 0 0"
    by (simp add: candidate_def)
  show ?thesis
    unfolding st' using makeNormals_normal_out [OF ne, of ?click] z by simp
qed

lemma handle_input_first:
  assumes "isFirst e"
  shows "handle_input st e =
           Inr (st\<lparr>currentSession := Some (addInputPoint new_PointerSession e),
                    isClick := True,
                    filteredPoints :=
                      [(candidate (addInputPoint new_PointerSession e) e)\<lparr>isStart := True\<rparr>],
                    meshPoints := [],
                    debugIsDirty := True\<rparr>)"
proof -
  let ?s = "addInputPoint new_PointerSession e"
  let ?st2 = "st\<lparr>currentSession := Some ?s, isClick := True, filteredPoints := [],
                   meshPoints := []\<rparr>"
  have s0: "(case currentSession st of None \<Rightarrow> new_PointerSession
             | Some cs \<Rightarrow> if isFirst e then new_PointerSession else cs) = new_PointerSession"
    using assms by (simp split: option.split)
  have upd: "onSessionUpdate ?s ?st2 =
               Inr (?st2\<lparr>filteredPoints := [(candidate ?s e)\<lparr>isStart := True\<rparr>]\<rparr>)"
    by (simp add: onSessionUpdate_Some [of _ ?s] addInputPoint_new filterPoints_Nil
          makeNormals_single)
  show ?thesis
    unfolding handle_input_def s0 Let_def using assms upd
    by (simp add: onSessionStart_def onSessionEnd_def)
qed

lemma handle_input_next:
  assumes "currentSession st = Some cs" and "\<not> isFirst e" and "inputData cs \<noteq> []"
  shows "handle_input st e =
           (case filterPoints (candidate (addInputPoint cs e) (last (inputData (addInputPoint cs e))))
                   (filteredPoints st) of
              Inl err \<Rightarrow> Inl err
            | Inr fps \<Rightarrow>
                Inr (st\<lparr>currentSession := Some (addInputPoint cs e),
                         isClick := isClick st \<and> \<not> 10 < traveledDistance (addInputPoint cs e),
                         filteredPoints :=
                           makeNormals
                             (isClick st \<and> \<not> 10 < traveledDistance (addInputPoint cs e)) fps,
                         debugIsDirty := True\<rparr>))"
proof -
  let ?s = "addInputPoint cs e"
  have ne: "inputData ?s \<noteq> []"
    using assms(3) by (rule addInputPoint_inputData_nonempty)
  have s0: "(case currentSession st of None \<Rightarrow> new_PointerSession
             | Some cs \<Rightarrow> if isFirst e then new_PointerSession else cs) = cs"
    using assms by simp
  show ?thesis
    unfolding handle_input_def s0 Let_def using assms(2)
    by (simp add: onSessionUpdate_Some [of _ ?s, OF _ ne] onSessionEnd_def split: sum.split)
qed

lemma handle_input_no_session:
  assumes "currentSession st = None" and "\<not> isFirst e"
  shows "handle_input st e =
           (case filterPoints (candidate (addInputPoint new_PointerSession e) e)
                   (filteredPoints st) of
              Inl err \<Rightarrow> Inl err
            | Inr fps \<Rightarrow>
                Inr (st\<lparr>currentSession := Some (addInputPoint new_PointerSession e),
                         filteredPoints := makeNormals (isClick st) fps,
                         debugIsDirty := True\<rparr>))"
proof -
  let ?s = "addInputPoint new_PointerSession e"
  have s0: "(case currentSession st of None \<Rightarrow> new_PointerSession
             | Some cs \<Rightarrow> if isFirst e then new_PointerSession else cs) = new_PointerSession"
    using assms by simp
  have ne: "inputData ?s \<noteq> []" and l: "last (inputData ?s) = e"
    and d: "\<not> 10 < traveledDistance ?s"
    by (simp_all add: addInputPoint_new)
  show ?thesis
    unfolding handle_input_def s0 Let_def using assms(2) l d
    by (simp add: onSessionUpdate_Some [of _ ?s, OF _ ne] onSessionEnd_def split: sum.split)
qed

subsection \<open>The invariant of a session\<close>

lemma wf_points_single: "wf_points [p] \<longleftrightarrow> isStart p \<and> isEnd p"
  by (simp add: wf_points_def)

lemma wf_points_snoc:
  "wf_points ((q # qs) @ [t]) \<longleftrightarrow>
     isStart q \<and> list_all (\<lambda>p. \<not> isStart p) qs \<and> \<not> isStart t \<and> isEnd t \<and>
     \<not> isEnd q \<and> list_all (\<lambda>p. \<not> isEnd p) qs"
  by (auto simp add: wf_points_def butlast_append)

lemma filter_empty_list_all: "list_all (\<lambda>p. \<not> P p) xs \<Longrightarrow> filter P xs = []"
  by (induction xs) auto

lemma wf_points_count_isStart: "wf_points ps \<Longrightarrow> length (filter isStart ps) = 1"
  by (cases ps) (simp_all add: wf_points_def filter_empty_list_all)

lemma wf_points_count_isEnd: "wf_points ps \<Longrightarrow> length (filter isEnd ps) = 1"
  by (cases ps rule: rev_cases) (simp_all add: wf_points_def filter_empty_list_all)

lemma filterPoints_wf:
  assumes "wf_points ps" and "\<not> isStart c" and "isEnd c"
  shows "\<exists>ps'. filterPoints c ps = Inr ps' \<and> wf_points ps' \<and> last ps' = c \<and>
               2 \<le> length ps' \<and> (hd ps')\<lparr>isEnd := True\<rparr> = (hd ps)\<lparr>isEnd := True\<rparr>"
proof -
  from assms(1) obtain qs t where ps: "ps = qs @ [t]"
    by (cases ps rule: rev_cases) (auto simp add: wf_points_def)
  show ?thesis
  proof (cases qs)
    case Nil
    with ps assms(1) have t: "isStart t" "isEnd t"
      by (simp_all add: wf_points_single)
    have f: "filterPoints c [t] = Inr [t\<lparr>isEnd := False\<rparr>, c]"
      using filterPoints_snoc [of c "[]" t] t by simp
    have w: "wf_points [t\<lparr>isEnd := False\<rparr>, c]"
      using wf_points_snoc [of "t\<lparr>isEnd := False\<rparr>" "[]" c] t assms(2,3) by simp
    from Nil ps f w show ?thesis
      by simp
  next
    case (Cons q rs)
    with ps assms(1) have t: "isEnd t" "\<not> isStart t" and q: "isStart q" "\<not> isEnd q"
      and rs: "list_all (\<lambda>p. \<not> isStart p) rs" "list_all (\<lambda>p. \<not> isEnd p) rs"
      using wf_points_snoc [of q rs t] by simp_all
    have w1: "wf_points ((q # rs @ [t\<lparr>isEnd := False\<rparr>]) @ [c])"
      unfolding wf_points_snoc using t q rs assms(2,3) by simp
    have w2: "wf_points ((q # rs) @ [c])"
      unfolding wf_points_snoc using t q rs assms(2,3) by simp
    have f: "filterPoints c ps =
               (if 50 < fp_traveledDistance c - fp_traveledDistance (last (q # rs))
                then Inr ((q # rs @ [t\<lparr>isEnd := False\<rparr>]) @ [c])
                else Inr ((q # rs) @ [c]))"
      using filterPoints_snoc [of c "q # rs" t] t ps Cons by simp
    show ?thesis
    proof (cases "50 < fp_traveledDistance c - fp_traveledDistance (last (q # rs))")
      case True
      with f w1 ps Cons show ?thesis by simp
    next
      case False
      with f w2 ps Cons show ?thesis by simp
    qed
  qed
qed

lemma makeNormals_wf: "wf_points ps \<Longrightarrow> wf_points (makeNormals click ps)"
proof -
  assume w: "wf_points ps"
  then have ne: "ps \<noteq> []"
    by (simp add: wf_points_def)
  then obtain n where n: "makeNormals click ps = butlast ps @ [(last ps)\<lparr>normal := n\<rparr>]"
    using makeNormals_shape by blast
  from ne obtain qs t where ps: "ps = qs @ [t]"
    by (cases ps rule: rev_cases) auto
  show ?thesis
  proof (cases qs)
    case Nil
    with w ps n show ?thesis
      by (simp add: wf_points_single)
  next
    case (Cons q rs)
    with w ps n show ?thesis
      using wf_points_snoc [of q rs t] wf_points_snoc [of q rs "t\<lparr>normal := n\<rparr>"] by simp
  qed
qed

lemma session_inv_first:
  assumes "isFirst e" and "handle_input st e = Inr st'"
  shows "session_inv ((candidate (addInputPoint new_PointerSession e) e)\<lparr>isStart := True\<rparr>) st'"
proof -
  have "st' = st\<lparr>currentSession := Some (addInputPoint new_PointerSession e),
                  isClick := True,
                  filteredPoints :=
                    [(candidate (addInputPoint new_PointerSession e) e)\<lparr>isStart := True\<rparr>],
                  meshPoints := [],
                  debugIsDirty := True\<rparr>"
    using assms handle_input_first [of e st] by simp
  then show ?thesis
    by (simp add: session_inv_def addInputPoint_new candidate_def wf_points_single)
qed

lemma session_inv_no_session:
  assumes "currentSession st = None" and "filteredPoints st = []" and "\<not> isFirst e"
    and "handle_input st e = Inr st'"
  shows "session_inv ((candidate (addInputPoint new_PointerSession e) e)\<lparr>isStart := True\<rparr>) st'"
proof -
  have "st' = st\<lparr>currentSession := Some (addInputPoint new_PointerSession e),
                  filteredPoints :=
                    [(candidate (addInputPoint new_PointerSession e) e)\<lparr>isStart := True\<rparr>],
                  debugIsDirty := True\<rparr>"
    using assms handle_input_no_session [of st e]
    by (simp add: filterPoints_Nil makeNormals_single)
  then show ?thesis
    by (simp add: session_inv_def addInputPoint_new candidate_def wf_points_single)
qed

lemma handle_input_starts_session:
  assumes "isFirst e \<or> currentSession st = None \<and> filteredPoints st = []"
  shows "\<exists>st'. handle_input st e = Inr st' \<and>
               session_inv ((candidate (addInputPoint new_PointerSession e) e)\<lparr>isStart := True\<rparr>) st' \<and>
               currentSession st' = Some (addInputPoint new_PointerSession e)"
proof (cases "isFirst e")
  case True
  then show ?thesis
    using handle_input_first [OF True, of st] session_inv_first [OF True, of st] by simp
next
  case False
  with assms have n: "currentSession st = None" and f: "filteredPoints st = []"
    by simp_all
  have "handle_input st e =
          Inr (st\<lparr>currentSession := Some (addInputPoint new_PointerSession e),
                   filteredPoints :=
                     [(candidate (addInputPoint new_PointerSession e) e)\<lparr>isStart := True\<rparr>],
                   debugIsDirty := True\<rparr>)"
    using handle_input_no_session [OF n False] f
    by (simp add: filterPoints_Nil makeNormals_single)
  then show ?thesis
    using session_inv_no_session [OF n f False] by simp
qed

lemma session_inv_step:
  assumes "session_inv a st" and "\<not> isFirst e"
  shows "\<exists>st'. handle_input st e = Inr st' \<and> session_inv a st' \<and>
               currentSession st' = map_option (\<lambda>cs. addInputPoint cs e) (currentSession st) \<and>
               (\<not> isClick st \<longrightarrow> \<not> isClick st')"
proof -
  from assms(1) obtain cs where cs: "currentSession st = Some cs" and ne: "inputData cs \<noteq> []"
    and wf: "wf_points (filteredPoints st)"
    and hd: "(hd (filteredPoints st))\<lparr>isEnd := True\<rparr> = a"
    by (auto simp add: session_inv_def split: option.splits)
  let ?s = "addInputPoint cs e"
  let ?c = "candidate ?s (last (inputData ?s))"
  let ?click = "isClick st \<and> \<not> 10 < traveledDistance ?s"
  have ne': "inputData ?s \<noteq> []"
    using ne by (rule addInputPoint_inputData_nonempty)
  have "\<not> isStart ?c" and "isEnd ?c"
    by (simp_all add: candidate_def)
  with wf obtain ps' where f: "filterPoints ?c (filteredPoints st) = Inr ps'"
    and wf': "wf_points ps'" and last': "last ps' = ?c" and len: "2 \<le> length ps'"
    and hd': "(hd ps')\<lparr>isEnd := True\<rparr> = (hd (filteredPoints st))\<lparr>isEnd := True\<rparr>"
    using filterPoints_wf by blast
  let ?st' = "st\<lparr>currentSession := Some ?s, isClick := ?click,
                  filteredPoints := makeNormals ?click ps', debugIsDirty := True\<rparr>"
  have step: "handle_input st e = Inr ?st'"
    using handle_input_next [OF cs assms(2) ne] f by simp
  from len have ps'_ne: "ps' \<noteq> []"
    by auto
  have pos: "fp_x (last (makeNormals ?click ps')) = fp_x ?c"
    "fp_y (last (makeNormals ?click ps')) = fp_y ?c"
    using makeNormals_last_pos [OF ps'_ne] last' by simp_all
  have inv: "session_inv a ?st'"
    using ne' pos makeNormals_wf [OF wf'] makeNormals_hd [OF len] hd hd'
    by (simp add: session_inv_def candidate_def)
  from step inv cs show ?thesis
    by simp
qed

lemma handle_inputs_session:
  assumes "session_inv a st" and "list_all (\<lambda>e. \<not> isFirst e) es"
  shows "\<exists>st'. handle_inputs st es = Inr st' \<and> session_inv a st' \<and>
               currentSession st' =
                 map_option (\<lambda>cs. foldl addInputPoint cs es) (currentSession st) \<and>
               (\<not> isClick st \<longrightarrow> \<not> isClick st')"
  using assms
proof (induction es arbitrary: st)
  case Nil
  then show ?case
    by (simp add: option.map_ident)
next
  case (Cons e es)
  from Cons.prems obtain st1 where s1: "handle_input st e = Inr st1" and i1: "session_inv a st1"
    and c1: "currentSession st1 = map_option (\<lambda>cs. addInputPoint cs e) (currentSession st)"
    and k1: "\<not> isClick st \<longrightarrow> \<not> isClick st1"
    using session_inv_step [of a st e] by auto
  from Cons.prems have "list_all (\<lambda>e. \<not> isFirst e) es"
    by simp
  with Cons.IH [OF i1] obtain st' where "handle_inputs st1 es = Inr st'" "session_inv a st'"
    "currentSession st' = map_option (\<lambda>cs. foldl addInputPoint cs es) (currentSession st1)"
    "\<not> isClick st1 \<longrightarrow> \<not> isClick st'"
    by blast
  with s1 c1 k1 show ?case
    by (simp add: option.map_comp comp_def)
qed

lemma handle_inputs_from_start:
  assumes "isFirst e \<or> currentSession st = None \<and> filteredPoints st = []"
    and "\<forall>e'\<in>set es. \<not> isFirst e'"
  shows "\<exists>st'. handle_inputs st (e # es) = Inr st' \<and>
               session_inv ((candidate (addInputPoint new_PointerSession e) e)\<lparr>isStart := True\<rparr>) st' \<and>
               currentSession st' = Some (foldl addInputPoint new_PointerSession (e # es))"
proof -
  let ?a = "(candidate (addInputPoint new_PointerSession e) e)\<lparr>isStart := True\<rparr>"
  obtain st1 where s1: "handle_input st e = Inr st1" and i1: "session_inv ?a st1"
    and c1: "currentSession st1 = Some (addInputPoint new_PointerSession e)"
    using handle_input_starts_session [OF assms(1)] by blast
  from assms(2) have "list_all (\<lambda>e. \<not> isFirst e) es"
    by (simp add: list_all_iff)
  with i1 obtain st' where "handle_inputs st1 es = Inr st'" "session_inv ?a st'"
    "currentSession st' = map_option (\<lambda>cs. foldl addInputPoint cs es) (currentSession st1)"
    using handle_inputs_session by blast
  with s1 c1 show ?thesis
    by simp
qed

lemma foldl_addInputPoint_not_final:
  "list_all (\<lambda>e. \<not> isFinal e) es \<Longrightarrow>
     inputData (foldl addInputPoint new_PointerSession es) = es \<and>
     \<not> isEnded (foldl addInputPoint new_PointerSession es)"
  by (induction es rule: rev_induct) (simp_all add: new_PointerSession_def addInputPoint_def)

lemma foldl_addInputPoint_all_appended:
  assumes "list_all (\<lambda>e. \<not> isFinal e) (butlast es)"
  shows "inputData (foldl addInputPoint new_PointerSession es) = es"
proof (cases es rule: rev_cases)
  case Nil
  then show ?thesis by (simp add: new_PointerSession_def)
next
  case (snoc xs x)
  with assms show ?thesis
    using foldl_addInputPoint_not_final [of xs] by (simp add: addInputPoint_def)
qed

text \<open>
  Every state the handler leaves during a session has a list of filtered points on which
  the next update does not throw: the last point has \<^verbatim>\<open>isEnd\<close>, and it is the start
  point or has a predecessor.
\<close>

lemma wf_points_tail: "wf_points ps \<Longrightarrow> isEnd (last ps) \<and> (isStart (last ps) \<or> 2 \<le> length ps)"
proof -
  assume w: "wf_points ps"
  then obtain p qs where ps: "ps = p # qs"
    by (cases ps) (auto simp add: wf_points_def)
  show ?thesis
  proof (cases qs)
    case Nil
    with w ps show ?thesis by (simp add: wf_points_def)
  next
    case (Cons q rs)
    with w ps show ?thesis by (simp add: wf_points_def)
  qed
qed

lemma update_preconditions_in_session:
  assumes "isFirst e \<or> currentSession st = None \<and> filteredPoints st = []"
    and "\<forall>e'\<in>set es. \<not> isFirst e'"
  shows "\<exists>st1 cs. handle_inputs st (e # es) = Inr st1 \<and> currentSession st1 = Some cs \<and>
           inputData cs \<noteq> [] \<and> filteredPoints st1 \<noteq> [] \<and>
           isEnd (last (filteredPoints st1)) \<and>
           (isStart (last (filteredPoints st1)) \<or> 2 \<le> length (filteredPoints st1))"
proof -
  from assms obtain st1 a where run: "handle_inputs st (e # es) = Inr st1"
    and inv: "session_inv a st1"
    using handle_inputs_from_start by blast
  from inv obtain cs where "currentSession st1 = Some cs" "inputData cs \<noteq> []"
    and wf: "wf_points (filteredPoints st1)"
    by (auto simp add: session_inv_def split: option.splits)
  with run show ?thesis
    using wf_points_tail [OF wf] by (simp add: wf_points_def)
qed

subsection \<open>Concrete runs\<close>

lemmas update_defs =
  handle_input_def onSessionUpdate_def onSessionStart_def onSessionEnd_def
  classify_def candidate_def filterPoints_def makeNormals_def js_index_def
  addInputPoint_def new_PointerSession_def distance_def normalize_vec_def
  MIN_SWIPE_THRESHOLD_def MIN_SWIPE_SEG_def Let_def vlength_x vlength_y

lemmas scenario_defs =
  locking_state_def locking_session_def resting_state_def resting_session_def sample_def

lemma swipe_samples_run:
  "handle_inputs st swipe_samples =
     Inr (st\<lparr>currentSession :=
            Some \<lparr>inputData = swipe_samples, traveledDistance = 65, isEnded = True\<rparr>,
          isClick := False,
          filteredPoints :=
            [\<lparr>fp_x = 0, fp_y = 0, input = sample True False 0 0, fp_traveledDistance = 0,
              distanceToLast = 0, isStart = True, isEnd = False, normal = Vector2 0 0\<rparr>,
             \<lparr>fp_x = 5, fp_y = 0, input = sample False False 5 0, fp_traveledDistance = 5,
              distanceToLast = 0, isStart = False, isEnd = False, normal = Vector2 0 0\<rparr>,
             \<lparr>fp_x = 60, fp_y = 0, input = sample False False 60 0, fp_traveledDistance = 60,
              distanceToLast = 0, isStart = False, isEnd = False, normal = Vector2 0 1\<rparr>,
             \<lparr>fp_x = 65, fp_y = 0, input = sample False True 65 0, fp_traveledDistance = 65,
              distanceToLast = 0, isStart = False, isEnd = True, normal = Vector2 0 1\<rparr>],
          meshPoints := [], debugIsDirty := True\<rparr>)"
proof -
  have first: "isFirst (sample True False 0 0)"
    by (simp add: sample_def)
  show ?thesis
    unfolding swipe_samples_def handle_inputs.simps handle_input_first [OF first]
    by (simp add: sample_def update_defs)
qed

lemma click_samples_run:
  "handle_inputs st click_samples =
     Inr (st\<lparr>currentSession :=
            Some \<lparr>inputData = click_samples, traveledDistance = 3, isEnded = True\<rparr>,
          isClick := True,
          filteredPoints :=
            [\<lparr>fp_x = 0, fp_y = 0, input = sample True False 0 0, fp_traveledDistance = 0,
              distanceToLast = 0, isStart = True, isEnd = False, normal = Vector2 0 0\<rparr>,
             \<lparr>fp_x = 3, fp_y = 0, input = sample False True 3 0, fp_traveledDistance = 3,
              distanceToLast = 0, isStart = False, isEnd = True, normal = Vector2 0 0\<rparr>],
          meshPoints := [], debugIsDirty := True\<rparr>)"
proof -
  have first: "isFirst (sample True False 0 0)"
    by (simp add: sample_def)
  show ?thesis
    unfolding click_samples_def handle_inputs.simps handle_input_first [OF first]
    by (simp add: sample_def update_defs)
qed

lemma drag_run:
  "handle_inputs initial [sample True False 0 0, sample False False 20 0] =
     Inr \<lparr>currentSession =
            Some \<lparr>inputData = [sample True False 0 0, sample False False 20 0],
                  traveledDistance = 20, isEnded = False\<rparr>,
          isClick = False,
          filteredPoints =
            [\<lparr>fp_x = 0, fp_y = 0, input = sample True False 0 0, fp_traveledDistance = 0,
              distanceToLast = 0, isStart = True, isEnd = False, normal = Vector2 0 0\<rparr>,
             \<lparr>fp_x = 20, fp_y = 0, input = sample False False 20 0, fp_traveledDistance = 20,
              distanceToLast = 0, isStart = False, isEnd = True, normal = Vector2 0 1\<rparr>],
          meshPoints = [], debugIsDirty = True\<rparr>"
  by (simp add: sample_def initial_def update_defs)

lemma drag_run_exceeds:
  "\<exists>st1 cs. handle_inputs initial [sample True False 0 0, sample False False 20 0] = Inr st1 \<and>
     currentSession st1 = Some cs \<and> MIN_SWIPE_THRESHOLD < traveledDistance cs"
  unfolding drag_run by (simp add: MIN_SWIPE_THRESHOLD_def)

lemma locking_update_run:
  "onSessionUpdate locking_session locking_state =
     Inr (locking_state\<lparr>isClick := False,
       filteredPoints :=
        [\<lparr>fp_x = 0, fp_y = 0, input = sample True False 0 0, fp_traveledDistance = 0,
          distanceToLast = 0, isStart = True, isEnd = False, normal = Vector2 0 0\<rparr>,
         \<lparr>fp_x = 5, fp_y = 0, input = sample False False 5 0, fp_traveledDistance = 5,
          distanceToLast = 0, isStart = False, isEnd = False, normal = Vector2 0 0\<rparr>,
         \<lparr>fp_x = 60, fp_y = 0, input = sample False False 60 0, fp_traveledDistance = 60,
          distanceToLast = 0, isStart = False, isEnd = True, normal = Vector2 0 1\<rparr>]\<rparr>)"
  by (simp add: scenario_defs update_defs)

lemma resting_update_run:
  "onSessionUpdate resting_session resting_state =
     Inr (resting_state\<lparr>isClick := False,
       filteredPoints :=
        [\<lparr>fp_x = 0, fp_y = 0, input = sample True False 0 0, fp_traveledDistance = 0,
          distanceToLast = 0, isStart = True, isEnd = False, normal = Vector2 0 0\<rparr>,
         \<lparr>fp_x = 60, fp_y = 0, input = sample False False 60 0, fp_traveledDistance = 60,
          distanceToLast = 0, isStart = False, isEnd = False, normal = Vector2 0 1\<rparr>,
         \<lparr>fp_x = 60, fp_y = 0, input = sample False False 60 0, fp_traveledDistance = 60,
          distanceToLast = 0, isStart = False, isEnd = True, normal = Vector2 0 0\<rparr>]\<rparr>)"
  by (simp add: scenario_defs update_defs)

section \<open>The claims\<close>

text \<open>
  Claim C1. An update finds a non-empty list of filtered points whose last point has
  \<^verbatim>\<open>isEnd\<close> and is either the start point or has a predecessor, as is the case after
  every event of a session (\<open>update_preconditions_in_session\<close>). With \<open>lastDetermined\<close> the point before
  the last one, or the last one when it is the start point, and \<open>distanceDelta\<close> the
  distance of the session minus that of \<open>lastDetermined\<close>: if \<open>distanceDelta\<close> exceeds
  50 or the last point is the start point, the last point loses \<^verbatim>\<open>isEnd\<close> and the
  candidate is appended, so the list grows by one; otherwise the candidate replaces the
  last point and the length stays. The new last point is the candidate, up to its normal.
\<close>

theorem update_locks_in_or_overwrites:
  fixes st :: PointerEffect and cs :: PointerSession
  defines "fps \<equiv> filteredPoints st"
  defines "tail \<equiv> last fps"
  defines "lastDetermined \<equiv> (if isStart tail then tail else fps ! (length fps - 2))"
  defines "distanceDelta \<equiv> traveledDistance cs - fp_traveledDistance lastDetermined"
  assumes "currentSession st = Some cs" and "inputData cs \<noteq> []"
    and "fps \<noteq> []" and "isEnd tail" and "isStart tail \<or> 2 \<le> length fps"
  shows "\<exists>st'. onSessionUpdate session st = Inr st' \<and>
           (last (filteredPoints st'))\<lparr>normal := Vector2 0 0\<rparr> =
             candidate cs (last (inputData cs)) \<and>
           (if distanceDelta > MIN_SWIPE_SEG \<or> isStart tail
            then length (filteredPoints st') = length fps + 1 \<and>
                 butlast (filteredPoints st') = butlast fps @ [tail\<lparr>isEnd := False\<rparr>]
            else length (filteredPoints st') = length fps \<and>
                 butlast (filteredPoints st') = butlast fps)"
proof -
  let ?c = "candidate cs (last (inputData cs))"
  let ?click = "isClick st \<and> \<not> 10 < traveledDistance cs"
  from assms(7) obtain qs t where snoc: "fps = qs @ [t]"
    by (cases fps rule: rev_cases) auto
  then have tail: "tail = t"
    by (simp add: tail_def)
  have prev: "\<not> isStart t \<Longrightarrow> qs \<noteq> [] \<and> lastDetermined = last qs"
  proof -
    assume n: "\<not> isStart t"
    with assms(9) tail snoc have "qs \<noteq> []"
      by auto
    then have "(qs @ [t]) ! (length (qs @ [t]) - 2) = last qs"
      by (cases qs rule: rev_cases) (simp_all add: nth_append)
    with n tail snoc \<open>qs \<noteq> []\<close> show ?thesis
      by (simp add: lastDetermined_def)
  qed
  have fin: "\<exists>st'. onSessionUpdate session st = Inr st' \<and>
                (last (filteredPoints st'))\<lparr>normal := Vector2 0 0\<rparr> = ?c \<and>
                length (filteredPoints st') = length ps' \<and>
                butlast (filteredPoints st') = butlast ps'"
    if f: "filterPoints ?c (filteredPoints st) = Inr ps'" and l: "last ps' = ?c"
      and ne: "ps' \<noteq> []" for ps'
  proof -
    have "onSessionUpdate session st =
            Inr (st\<lparr>isClick := ?click, filteredPoints := makeNormals ?click ps'\<rparr>)"
      using onSessionUpdate_Some [OF assms(5,6), of session] f by simp
    moreover have "(last (makeNormals ?click ps'))\<lparr>normal := Vector2 0 0\<rparr> = ?c"
      using makeNormals_last_upd [OF ne, where click = ?click and m = "Vector2 0 0"] l
      by (simp add: candidate_def)
    ultimately show ?thesis
      by (simp add: makeNormals_length makeNormals_butlast)
  qed
  show ?thesis
  proof (cases "distanceDelta > MIN_SWIPE_SEG \<or> isStart tail")
    case True
    have "filterPoints ?c (filteredPoints st) = Inr (qs @ [t\<lparr>isEnd := False\<rparr>, ?c])"
      using filterPoints_snoc [of ?c qs t] snoc tail assms(8) prev True
      by (auto simp add: fps_def distanceDelta_def candidate_def MIN_SWIPE_SEG_def)
    from fin [OF this] True snoc tail show ?thesis
      by (simp add: butlast_append)
  next
    case False
    have "filterPoints ?c (filteredPoints st) = Inr (qs @ [?c])"
      using filterPoints_snoc [of ?c qs t] snoc tail assms(8) prev False
      by (auto simp add: fps_def distanceDelta_def candidate_def MIN_SWIPE_SEG_def)
    from fin [OF this] False snoc tail show ?thesis
      by simp
  qed
qed

text \<open>
  Witness for C1: the third sample of the swipe, 60 units from the start point, locks
  (5,0) in and is appended as the third point.
\<close>

theorem update_locks_in_or_overwrites_witness:
  "\<exists>st'. onSessionUpdate locking_session locking_state = Inr st' \<and>
     length (filteredPoints st') = 3 \<and>
     map flags (butlast (filteredPoints st')) = [(0, 0, True, False), (5, 0, False, False)] \<and>
     (last (filteredPoints st'))\<lparr>normal := Vector2 0 0\<rparr> =
       candidate locking_session (sample False False 60 0)"
proof -
  have "currentSession locking_state = Some locking_session"
    and "inputData locking_session \<noteq> []"
    and "filteredPoints locking_state \<noteq> []"
    and "isEnd (last (filteredPoints locking_state))"
    and "isStart (last (filteredPoints locking_state)) \<or> 2 \<le> length (filteredPoints locking_state)"
    by (simp_all add: scenario_defs)
  from update_locks_in_or_overwrites [OF this, of locking_session] show ?thesis
    by (simp add: locking_update_run)
       (simp add: scenario_defs flags_def candidate_def MIN_SWIPE_SEG_def)
qed

text \<open>
  Claim C2. A session starts with an event flagged first, or with any event while no
  session exists and no point is stored; the events that follow are not flagged first.
  After every such sequence the handler has returned, the list of filtered points is not
  empty, exactly one point has \<^verbatim>\<open>isStart\<close>, exactly one has \<^verbatim>\<open>isEnd\<close> and it is
  the last one, and the last point sits on the centre of the newest sample of the
  session. That sample is the most recent event whenever every event was appended, that
  is, when no earlier event was final.
\<close>

theorem session_points_well_formed:
  assumes "isFirst e \<or> currentSession st = None \<and> filteredPoints st = []"
    and "\<forall>e'\<in>set es. \<not> isFirst e'"
  shows "\<exists>st' cs. handle_inputs st (e # es) = Inr st' \<and>
           currentSession st' = Some cs \<and>
           filteredPoints st' \<noteq> [] \<and>
           length (filter isStart (filteredPoints st')) = 1 \<and>
           length (filter isEnd (filteredPoints st')) = 1 \<and>
           isEnd (last (filteredPoints st')) \<and>
           inputData cs \<noteq> [] \<and>
           fp_x (last (filteredPoints st')) = vx (center (last (inputData cs))) \<and>
           fp_y (last (filteredPoints st')) = vy (center (last (inputData cs))) \<and>
           ((\<forall>e'\<in>set (butlast (e # es)). \<not> isFinal e') \<longrightarrow>
              last (inputData cs) = last (e # es))"
proof -
  let ?cs = "foldl addInputPoint new_PointerSession (e # es)"
  from assms obtain st' a where run: "handle_inputs st (e # es) = Inr st'"
    and inv: "session_inv a st'" and cs: "currentSession st' = Some ?cs"
    using handle_inputs_from_start by blast
  from inv have wf: "wf_points (filteredPoints st')"
    by (simp add: session_inv_def)
  have appended: "(\<forall>e'\<in>set (butlast (e # es)). \<not> isFinal e') \<longrightarrow>
                    last (inputData ?cs) = last (e # es)"
    using foldl_addInputPoint_all_appended [of "e # es"] by (simp add: list_all_iff)
  from inv cs have "inputData ?cs \<noteq> []"
    and "fp_x (last (filteredPoints st')) = vx (center (last (inputData ?cs)))"
    and "fp_y (last (filteredPoints st')) = vy (center (last (inputData ?cs)))"
    by (simp_all add: session_inv_def)
  with run cs wf appended show ?thesis
    using wf_points_count_isStart [OF wf] wf_points_count_isEnd [OF wf]
    by (simp add: wf_points_def)
qed

text \<open>Witness for C2: the run of the two click samples.\<close>

theorem session_points_well_formed_witness:
  "\<exists>st' cs. handle_inputs initial click_samples = Inr st' \<and>
     currentSession st' = Some cs \<and>
     filteredPoints st' \<noteq> [] \<and>
     length (filter isStart (filteredPoints st')) = 1 \<and>
     length (filter isEnd (filteredPoints st')) = 1 \<and>
     isEnd (last (filteredPoints st')) \<and>
     inputData cs \<noteq> [] \<and>
     fp_x (last (filteredPoints st')) = vx (center (last (inputData cs))) \<and>
     fp_y (last (filteredPoints st')) = vy (center (last (inputData cs))) \<and>
     last (inputData cs) = sample False True 3 0"
  using session_points_well_formed
          [where e = "sample True False 0 0" and es = "[sample False True 3 0]"
             and st = initial]
  by (simp add: click_samples_def sample_def)

text \<open>
  Claim C3. Throughout a session the first filtered point is the point made from the
  first sample: it has \<^verbatim>\<open>isStart\<close>, its position is the centre of the first sample,
  and it is the start candidate of that sample in every field but \<^verbatim>\<open>isEnd\<close>.
\<close>

theorem anchor_kept:
  assumes "isFirst e \<or> currentSession st = None \<and> filteredPoints st = []"
    and "\<forall>e'\<in>set es. \<not> isFirst e'"
  shows "\<exists>st'. handle_inputs st (e # es) = Inr st' \<and>
           filteredPoints st' \<noteq> [] \<and>
           isStart (hd (filteredPoints st')) \<and>
           fp_x (hd (filteredPoints st')) = vx (center e) \<and>
           fp_y (hd (filteredPoints st')) = vy (center e) \<and>
           (hd (filteredPoints st'))\<lparr>isEnd := True\<rparr> =
             (candidate (addInputPoint new_PointerSession e) e)\<lparr>isStart := True\<rparr>"
proof -
  let ?a = "(candidate (addInputPoint new_PointerSession e) e)\<lparr>isStart := True\<rparr>"
  from assms obtain st' where run: "handle_inputs st (e # es) = Inr st'"
    and inv: "session_inv ?a st'"
    using handle_inputs_from_start by blast
  from inv have wf: "wf_points (filteredPoints st')"
    and a: "(hd (filteredPoints st'))\<lparr>isEnd := True\<rparr> = ?a"
    by (simp_all add: session_inv_def)
  have "fp_x ((hd (filteredPoints st'))\<lparr>isEnd := True\<rparr>) = fp_x ?a"
    and "fp_y ((hd (filteredPoints st'))\<lparr>isEnd := True\<rparr>) = fp_y ?a"
    by (simp_all only: a)
  then have "fp_x (hd (filteredPoints st')) = vx (center e)"
    and "fp_y (hd (filteredPoints st')) = vy (center e)"
    by (simp_all add: candidate_def)
  with run wf a show ?thesis
    by (simp add: wf_points_def)
qed

text \<open>Witness for C3: the run of the four swipe samples.\<close>

theorem anchor_kept_witness:
  "\<exists>st'. handle_inputs initial swipe_samples = Inr st' \<and>
     filteredPoints st' \<noteq> [] \<and>
     isStart (hd (filteredPoints st')) \<and>
     fp_x (hd (filteredPoints st')) = 0 \<and>
     fp_y (hd (filteredPoints st')) = 0 \<and>
     (hd (filteredPoints st'))\<lparr>isEnd := True\<rparr> =
       \<lparr>fp_x = 0, fp_y = 0, input = sample True False 0 0, fp_traveledDistance = 0,
        distanceToLast = 0, isStart = True, isEnd = True, normal = Vector2 0 0\<rparr>"
  using anchor_kept
          [where e = "sample True False 0 0"
             and es = "[sample False False 5 0, sample False False 60 0, sample False True 65 0]"
             and st = initial]
  by (simp add: swipe_samples_def sample_def candidate_def addInputPoint_new)

text \<open>
  Claim C4, as amended. From any state, the samples (0,0) first, (5,0), (60,0), (65,0)
  final leave four filtered points, at (0,0) with \<^verbatim>\<open>isStart\<close>, (5,0), (60,0) and
  (65,0) with \<^verbatim>\<open>isEnd\<close>: the second sample is appended because the last point is
  the start point, and it is locked in when the third sample arrives. The click flag is
  false and the normal of the last point is (0,1).
\<close>

theorem swipe_scenario_four_points:
  "\<exists>st'. handle_inputs st swipe_samples = Inr st' \<and>
         map flags (filteredPoints st') =
           [(0, 0, True, False), (5, 0, False, False), (60, 0, False, False),
            (65, 0, False, True)] \<and>
         \<not> isClick st' \<and>
         normal (last (filteredPoints st')) = Vector2 0 1"
  by (simp add: swipe_samples_run flags_def)

text \<open>
  Claim C4 as it is written fails: the filtered points of that run are not the three
  points (0,0), (60,0), (65,0).
\<close>

theorem swipe_scenario_not_three_points:
  "\<not> (\<exists>st'. handle_inputs initial swipe_samples = Inr st' \<and>
            map flags (filteredPoints st') =
              [(0, 0, True, False), (60, 0, False, False), (65, 0, False, True)])"
  by (simp add: swipe_samples_run flags_def)

text \<open>
  Claim C5, as amended. From any state, the samples (0,0) first, (3,0) final leave the
  click flag true and every normal zero, and the filtered points are the two points (0,0)
  with \<^verbatim>\<open>isStart\<close> and (3,0) with \<^verbatim>\<open>isEnd\<close>: a sample that finds the start
  point last is appended, whatever the distance.
\<close>

theorem click_scenario_two_points:
  "\<exists>st'. handle_inputs st click_samples = Inr st' \<and>
         isClick st' \<and>
         map flags (filteredPoints st') = [(0, 0, True, False), (3, 0, False, True)] \<and>
         map normal (filteredPoints st') = [Vector2 0 0, Vector2 0 0]"
  by (simp add: click_samples_run flags_def)

text \<open>
  Claim C5 as it is written fails: the filtered points of that run are not the single
  point (0,0) carrying both flags.
\<close>

theorem click_scenario_not_single_point:
  "\<not> (\<exists>st'. handle_inputs initial click_samples = Inr st' \<and>
            map flags (filteredPoints st') = [(0, 0, True, True)])"
  by (simp add: click_samples_run flags_def)

text \<open>
  Claim C6. Once an update of a session has seen a travelled distance above 10, the
  click flag is false after that update and after every later event of the session,
  whatever the later samples are; the handler returns on all of them.
\<close>

theorem click_stays_false:
  assumes "isFirst e \<or> currentSession st = None \<and> filteredPoints st = []"
    and "\<forall>e'\<in>set es1. \<not> isFirst e'" and "\<forall>e'\<in>set es2. \<not> isFirst e'"
    and "handle_inputs st (e # es1) = Inr st1"
    and "currentSession st1 = Some cs"
    and "MIN_SWIPE_THRESHOLD < traveledDistance cs"
  shows "\<not> isClick st1 \<and> (\<exists>st2. handle_inputs st1 es2 = Inr st2 \<and> \<not> isClick st2)"
proof -
  from assms(1,2,4) obtain a where inv: "session_inv a st1"
    using handle_inputs_from_start [where e = e and es = es1 and st = st] by auto
  with assms(5,6) have k1: "\<not> isClick st1"
    by (simp add: session_inv_def MIN_SWIPE_THRESHOLD_def)
  from assms(3) have "list_all (\<lambda>e. \<not> isFirst e) es2"
    by (simp add: list_all_iff)
  with inv obtain st2 where "handle_inputs st1 es2 = Inr st2" "\<not> isClick st1 \<longrightarrow> \<not> isClick st2"
    using handle_inputs_session by blast
  with k1 show ?thesis
    by blast
qed

text \<open>
  Witness for C6: after (0,0) and (20,0) the distance is 20; two more samples at (20,0),
  without any movement, leave the flag false.
\<close>

theorem click_stays_false_witness:
  "\<exists>st1. handle_inputs initial [sample True False 0 0, sample False False 20 0] = Inr st1 \<and>
     \<not> isClick st1 \<and>
     (\<exists>st2. handle_inputs st1 [sample False False 20 0, sample False True 20 0] = Inr st2 \<and>
            \<not> isClick st2)"
proof -
  have h: "isFirst (sample True False 0 0) \<or>
          currentSession initial = None \<and> filteredPoints initial = []"
    "\<forall>e'\<in>set [sample False False 20 0]. \<not> isFirst e'"
    "\<forall>e'\<in>set [sample False False 20 0, sample False True 20 0]. \<not> isFirst e'"
    by (simp_all add: sample_def)
  obtain st1 cs
    where run: "handle_inputs initial [sample True False 0 0, sample False False 20 0] = Inr st1"
      and cs: "currentSession st1 = Some cs" and td: "MIN_SWIPE_THRESHOLD < traveledDistance cs"
    using drag_run_exceeds by blast
  from click_stays_false [OF h run cs td] run show ?thesis
    by blast
qed

text \<open>
  Claim C7. After an update, the normal of the last point has been computed exactly when
  the click flag is false and there are at least two points. It is then the normalised
  vector \<open>(- dir.y, dir.x)\<close>, with \<open>dir\<close> the normalised difference of the last two
  positions, and has length one when the two positions differ. Otherwise it is the zero
  vector the candidate was created with.
\<close>

theorem tail_normal_perpendicular:
  fixes st' :: PointerEffect
  defines "fps' \<equiv> filteredPoints st'"
  defines "dir \<equiv> normalize_vec
                   (Vector2 (fp_x (last fps') - fp_x (fps' ! (length fps' - 2)))
                            (fp_y (last fps') - fp_y (fps' ! (length fps' - 2))))"
  assumes "onSessionUpdate session st = Inr st'" and "currentSession st = Some cs"
  shows "if \<not> isClick st' \<and> 2 \<le> length fps'
         then normal (last fps') = normalize_vec (Vector2 (- vy dir) (vx dir)) \<and>
              (fp_x (last fps') \<noteq> fp_x (fps' ! (length fps' - 2)) \<or>
               fp_y (last fps') \<noteq> fp_y (fps' ! (length fps' - 2))
                 \<longrightarrow> vlength (normal (last fps')) = 1)
         else normal (last fps') = Vector2 0 0"
proof -
  let ?d = "Vector2 (fp_x (last fps') - fp_x (fps' ! (length fps' - 2)))
                    (fp_y (last fps') - fp_y (fps' ! (length fps' - 2)))"
  have n: "normal (last fps') =
             (if \<not> isClick st' \<and> 2 \<le> length fps'
              then normalize_vec (Vector2 (- vy dir) (vx dir)) else Vector2 0 0)"
    unfolding fps'_def dir_def using assms(3,4) by (rule onSessionUpdate_tail_normal)
  have "vlength (normalize_vec (Vector2 (- vy dir) (vx dir))) = 1"
    if "fp_x (last fps') \<noteq> fp_x (fps' ! (length fps' - 2)) \<or>
        fp_y (last fps') \<noteq> fp_y (fps' ! (length fps' - 2))"
  proof -
    from that have "?d \<noteq> Vector2 0 0"
      by auto
    then show ?thesis
      unfolding dir_def by (rule unit_normal)
  qed
  with n show ?thesis
    by simp
qed

text \<open>
  Witness for C7: the third sample of the swipe travels to the right, and the normal of
  the new last point is (0,1).
\<close>

theorem tail_normal_perpendicular_witness:
  "\<exists>st'. onSessionUpdate locking_session locking_state = Inr st' \<and>
     \<not> isClick st' \<and> length (filteredPoints st') = 3 \<and>
     normal (last (filteredPoints st')) = Vector2 0 1 \<and>
     vlength (normal (last (filteredPoints st'))) = 1"
proof -
  have cs: "currentSession locking_state = Some locking_session"
    by (simp add: locking_state_def)
  from tail_normal_perpendicular [OF locking_update_run cs] show ?thesis
    by (simp add: locking_update_run normalize_vec_def vlength_x vlength_y)
qed

text \<open>
  Claim C8. An update leaves the normal of every point before the last one as it was:
  the normals of all points but the last are the normals the same positions of the list
  had before the update.
\<close>

theorem update_keeps_earlier_normals:
  assumes "onSessionUpdate session st = Inr st'"
  shows "map normal (butlast (filteredPoints st')) =
           take (length (filteredPoints st') - 1) (map normal (filteredPoints st))"
proof (cases "currentSession st")
  case None
  with assms have "st' = st"
    by (simp add: onSessionUpdate_def)
  then show ?thesis
    by (simp add: butlast_conv_take take_map)
next
  case (Some cs)
  let ?click = "isClick st \<and> \<not> 10 < traveledDistance cs"
  from assms Some obtain ps'
    where f: "filterPoints (candidate cs (last (inputData cs))) (filteredPoints st) = Inr ps'"
    and st': "st' = st\<lparr>isClick := ?click, filteredPoints := makeNormals ?click ps'\<rparr>"
    using onSessionUpdate_result by blast
  from st' show ?thesis
    using filterPoints_butlast_normals [OF f]
    by (simp add: makeNormals_butlast makeNormals_length)
qed

text \<open>
  Witness for C8: the resting pointer appends a third point, and the normal (0,1) of the
  former last point stays.
\<close>

theorem update_keeps_earlier_normals_witness:
  "\<exists>st'. onSessionUpdate resting_session resting_state = Inr st' \<and>
     map normal (butlast (filteredPoints st')) = [Vector2 0 0, Vector2 0 1]"
  using update_keeps_earlier_normals [OF resting_update_run]
  by (simp add: resting_update_run)

text \<open>
  Claim C10. While no session exists, an event flagged first creates a session and
  resets the click flag and the lists before the update. An event not flagged first also
  creates a session and runs the update, on the click flag and the filtered points as
  they were: nothing is reset.
\<close>

theorem no_session_reset_only_when_first:
  assumes "currentSession st = None"
  shows "handle_input st e =
           (if isFirst e
            then Inr (st\<lparr>currentSession := Some (addInputPoint new_PointerSession e),
                          isClick := True,
                          filteredPoints :=
                            [(candidate (addInputPoint new_PointerSession e) e)\<lparr>isStart := True\<rparr>],
                          meshPoints := [],
                          debugIsDirty := True\<rparr>)
            else (case filterPoints (candidate (addInputPoint new_PointerSession e) e)
                         (filteredPoints st) of
                    Inl err \<Rightarrow> Inl err
                  | Inr fps \<Rightarrow>
                      Inr (st\<lparr>currentSession := Some (addInputPoint new_PointerSession e),
                               filteredPoints := makeNormals (isClick st) fps,
                               debugIsDirty := True\<rparr>)))"
  using handle_input_first [of e st] handle_input_no_session [OF assms, of e]
  by simp

text \<open>
  Witness for C10: the first event ever, not flagged first, leaves the click flag at its
  initial value false, where the reset would have made it true.
\<close>

theorem no_session_reset_only_when_first_witness:
  "handle_input initial (sample False False 7 7) =
     Inr \<lparr>currentSession =
            Some \<lparr>inputData = [sample False False 7 7], traveledDistance = 0, isEnded = False\<rparr>,
          isClick = False,
          filteredPoints =
            [\<lparr>fp_x = 7, fp_y = 7, input = sample False False 7 7, fp_traveledDistance = 0,
              distanceToLast = 0, isStart = True, isEnd = True, normal = Vector2 0 0\<rparr>],
          meshPoints = [], debugIsDirty = True\<rparr>"
  using no_session_reset_only_when_first [of initial "sample False False 7 7"]
  by (simp add: initial_def sample_def addInputPoint_new candidate_def filterPoints_Nil
        makeNormals_single)

end
